theory Spec2Isabelle
  imports Main
begin

section \<open>The naming validator of cloud-functions/quarantine/main.py\<close>

text \<open>
  The repository holds one function, \<open>validate_naming_convention\<close>, run once for each
  object-creation event of a storage bucket. It reads the event's \<open>bucket\<close> and
  \<open>name\<close>, skips names that contain \<open>quarantine/\<close> or start with a dot, tests the name
  against \<open>SOP_PATTERN\<close> with \<open>re.match\<close>, and moves a name that fails the test under
  the prefix \<open>quarantine/\<close> by a copy followed by a delete.

  Object names are modelled as \<open>string\<close>, lists of 8-bit characters read as the code
  points below 256. In that range the class \<open>\d\<close> of Python's \<open>re\<close> module holds
  exactly the ten ASCII digits.
\<close>

subsection \<open>Regular expressions: the fragment used by \<open>SOP_PATTERN\<close>\<close>

text \<open>
  A character class is a list of inclusive ranges, as between the brackets of the
  pattern: \<open>[A-Z0-9]\<close> is the ranges \<open>A-Z\<close> and \<open>0-9\<close>.
\<close>

type_synonym cclass = "(char \<times> char) list"

definition in_range :: "char \<Rightarrow> char \<Rightarrow> char \<Rightarrow> bool" where
  "in_range lo hi c = ((of_char lo :: nat) \<le> of_char c \<and> (of_char c :: nat) \<le> of_char hi)"

definition in_class :: "cclass \<Rightarrow> char \<Rightarrow> bool" where
  "in_class cls c = list_ex (\<lambda>(lo, hi). in_range lo hi c) cls"

text \<open>
  The pattern is a sequence of items: the anchors \<open>^\<close> and \<open>$\<close>, a literal character,
  a class repeated exactly \<open>n\<close> times (\<open>\d{8}\<close>) and a class repeated one or more times
  (\<open>[A-Z0-9]+\<close>).
\<close>

datatype item = Bol | Eol | Lit char | Rep cclass nat | Plus cclass

text \<open>
  \<open>re_match p at_start s\<close> is the truth value of \<open>re.match\<close>: whether the items \<open>p\<close>
  match some prefix of the remaining input \<open>s\<close>; \<open>at_start\<close> tells whether no character
  has been consumed yet. Without the \<open>MULTILINE\<close> flag \<open>^\<close> holds at the start of the
  string only, and \<open>$\<close> holds at the end of the string and just before a line feed that
  is the last character of the string. \<open>re.match\<close> does not ask the match to reach the
  end of the string: when the items are used up the match has succeeded. A \<open>+\<close> takes one
  character of its class and then either goes on taking or hands over to the rest of
  the pattern, which is what backtracking explores.
\<close>

fun re_match :: "item list \<Rightarrow> bool \<Rightarrow> string \<Rightarrow> bool" where
  "re_match [] at_start s = True"
| "re_match (Bol # p) at_start s = (at_start \<and> re_match p at_start s)"
| "re_match (Eol # p) at_start s = ((s = [] \<or> s = [CHR 0x0A]) \<and> re_match p at_start s)"
| "re_match (Lit c # p) at_start [] = False"
| "re_match (Lit c # p) at_start (x # xs) = (x = c \<and> re_match p False xs)"
| "re_match (Rep cls 0 # p) at_start s = re_match p at_start s"
| "re_match (Rep cls (Suc n) # p) at_start [] = False"
| "re_match (Rep cls (Suc n) # p) at_start (x # xs) =
     (in_class cls x \<and> re_match (Rep cls n # p) False xs)"
| "re_match (Plus cls # p) at_start [] = False"
| "re_match (Plus cls # p) at_start (x # xs) =
     (in_class cls x \<and> (re_match (Plus cls # p) False xs \<or> re_match p False xs))"

text \<open>
  \<^verbatim>\<open>SOP_PATTERN = r'^\d{8}_[A-Z0-9]+_[A-Za-z0-9]+_LoD\d{3}\.[a-z0-9]+$'\<close>
\<close>

definition digit :: cclass where
  "digit = [(CHR ''0'', CHR ''9'')]"

definition upper_digit :: cclass where
  "upper_digit = [(CHR ''A'', CHR ''Z''), (CHR ''0'', CHR ''9'')]"

definition alnum :: cclass where
  "alnum = [(CHR ''A'', CHR ''Z''), (CHR ''a'', CHR ''z''), (CHR ''0'', CHR ''9'')]"

definition lower_digit :: cclass where
  "lower_digit = [(CHR ''a'', CHR ''z''), (CHR ''0'', CHR ''9'')]"

definition SOP_PATTERN :: "item list" where
  "SOP_PATTERN =
     [Bol, Rep digit 8, Lit (CHR ''_''), Plus upper_digit, Lit (CHR ''_''), Plus alnum,
      Lit (CHR ''_''), Lit (CHR ''L''), Lit (CHR ''o''), Lit (CHR ''D''), Rep digit 3,
      Lit (CHR ''.''), Plus lower_digit, Eol]"

definition sop_match :: "string \<Rightarrow> bool" where
  "sop_match file_name = re_match SOP_PATTERN True file_name"

subsection \<open>String tests of the exclusion check\<close>

text \<open>\<open>startswith s p\<close> is Python's \<open>s.startswith(p)\<close>.\<close>

fun startswith :: "string \<Rightarrow> string \<Rightarrow> bool" where
  "startswith s [] = True"
| "startswith [] (p # ps) = False"
| "startswith (c # cs) (p # ps) = (c = p \<and> startswith cs ps)"

text \<open>\<open>py_in sub s\<close> is Python's \<open>sub in s\<close> on strings: \<open>sub\<close> occurs in \<open>s\<close>.\<close>

fun py_in :: "string \<Rightarrow> string \<Rightarrow> bool" where
  "py_in sub [] = (sub = [])"
| "py_in sub (c # cs) = (startswith (c # cs) sub \<or> py_in sub cs)"

subsection \<open>The object store and its two requests\<close>

text \<open>
  The storage service is outside the repository. It is modelled as the spec's glossary
  describes it: every key of a container maps to a blob. A key is a pair of a bucket
  name and an object name; the content type \<open>'c\<close> is left open.
\<close>

type_synonym 'c object_store = "string \<times> string \<Rightarrow> 'c option"

text \<open>
  A call of the storage client fails with an exception. \<open>NotFound\<close> is raised when
  the object named by the request does not exist; \<open>Forbidden\<close> (permission denied) and
  \<open>ServiceUnavailable\<close> (network failure) depend on the world outside the store, so a
  run is given, for each of its two requests, the failure of that kind the service
  answers with, if any. \<open>ValueError\<close> and \<open>IndexError\<close> are raised by the client
  itself, before anything is sent: \<open>ValueError\<close> when it is asked for the path of a
  blob whose name is empty or for a bucket whose name does not start and end with a
  letter or a digit, \<open>IndexError\<close> when the bucket name is empty.
\<close>

datatype storage_error = NotFound | Forbidden | ServiceUnavailable | ValueError | IndexError

record faults =
  copy_fault :: "storage_error option"
  delete_fault :: "storage_error option"

definition no_faults :: faults where
  "no_faults = \<lparr>copy_fault = None, delete_fault = None\<rparr>"

text \<open>
  \<open>bucket.copy_blob(blob, destination_bucket, new_name)\<close>: the client first builds the
  paths of the source blob and of the new blob, and refuses an empty blob name with
  \<open>ValueError\<close> before it sends the request. Then the content of the source object is
  written at the destination key, replacing what was there. The source stays.
\<close>

definition copy_blob ::
  "storage_error option \<Rightarrow> 'c object_store \<Rightarrow> string \<Rightarrow> string \<Rightarrow> string \<Rightarrow> string
     \<Rightarrow> storage_error + 'c object_store" where
  "copy_blob fault st src_bucket src_name dst_bucket dst_name =
     (if src_name = [] \<or> dst_name = [] then Inl ValueError
      else
        (case fault of
           Some e \<Rightarrow> Inl e
         | None \<Rightarrow>
             (case st (src_bucket, src_name) of
                None \<Rightarrow> Inl NotFound
              | Some content \<Rightarrow> Inr (st((dst_bucket, dst_name) \<mapsto> content)))))"

text \<open>
  \<open>blob.delete()\<close>: the client builds the path of the blob, with the same refusal of
  an empty name, and the object is removed from its key.
\<close>

definition blob_delete ::
  "storage_error option \<Rightarrow> 'c object_store \<Rightarrow> string \<Rightarrow> string
     \<Rightarrow> storage_error + 'c object_store" where
  "blob_delete fault st bucket_name blob_name =
     (if blob_name = [] then Inl ValueError
      else
        (case fault of
           Some e \<Rightarrow> Inl e
         | None \<Rightarrow>
             (case st (bucket_name, blob_name) of
                None \<Rightarrow> Inl NotFound
              | Some content \<Rightarrow> Inr (st((bucket_name, blob_name) := None)))))"

subsection \<open>The validator\<close>

text \<open>The event payload: \<open>data["bucket"]\<close> and \<open>data["name"]\<close>.\<close>

record event =
  bucket :: string
  name :: string

text \<open>
  The two lines the function prints. Each is a fixed text around the file name:
  \<open>SOP_Violation n\<close> is the line \<open>SOP Violation: n. Moving to quarantine.\<close> behind a
  warning sign, and \<open>SOP_Compliant n\<close> is the line
  \<open>SOP Compliant: n. Proceeding to Metadata Extraction.\<close> behind a check mark.
\<close>

datatype log_line = SOP_Violation string | SOP_Compliant string

text \<open>
  What a run does, in the order it does it: a printed line, a call of \<open>copy_blob\<close>
  (source bucket and name, destination bucket and name), a call of \<open>delete\<close> (bucket
  and name). A call is recorded when it is made, whatever comes of it.
\<close>

datatype effect =
  Print log_line
| Copy_blob string string string string
| Delete_blob string string

text \<open>
  The result of a run: the exception that left the function, if any; the effects in
  order; the object store afterwards.
\<close>

record 'c outcome =
  raised :: "storage_error option"
  effects :: "effect list"
  store :: "'c object_store"

text \<open>
  \<open>validate_naming_convention\<close> from the exclusion check on, statement by statement,
  for a run in which \<open>storage.Client()\<close>, \<open>bucket()\<close> and \<open>blob()\<close> have built their
  handles. These three send no request to the store; the one of them that looks at
  the event is \<open>bucket()\<close>, and \<open>invocation\<close> below puts its check in front. Nothing
  is caught: an exception of \<open>copy_blob\<close> or \<open>delete\<close> ends the run.
\<close>

definition validate_naming_convention ::
  "faults \<Rightarrow> event \<Rightarrow> 'c object_store \<Rightarrow> 'c outcome" where
  "validate_naming_convention flt cloud_event st =
     (let bucket_name = bucket cloud_event;
          file_name = name cloud_event
      in
        if py_in ''quarantine/'' file_name \<or> startswith file_name ''.'' then
          \<lparr>raised = None, effects = [], store = st\<rparr>
        else if \<not> sop_match file_name then
          (let new_name = ''quarantine/'' @ file_name;
               printed = Print (SOP_Violation file_name);
               copied = Copy_blob bucket_name file_name bucket_name new_name;
               deleted = Delete_blob bucket_name file_name
           in
             case copy_blob (copy_fault flt) st bucket_name file_name bucket_name new_name of
               Inl e \<Rightarrow> \<lparr>raised = Some e, effects = [printed, copied], store = st\<rparr>
             | Inr st1 \<Rightarrow>
                 (case blob_delete (delete_fault flt) st1 bucket_name file_name of
                    Inl e \<Rightarrow>
                      \<lparr>raised = Some e, effects = [printed, copied, deleted], store = st1\<rparr>
                  | Inr st2 \<Rightarrow>
                      \<lparr>raised = None, effects = [printed, copied, deleted], store = st2\<rparr>))
        else
          \<lparr>raised = None, effects = [Print (SOP_Compliant file_name)], store = st\<rparr>)"

subsection \<open>The handles\<close>

text \<open>
  \<open>c.isalnum()\<close> on the code points below 256: the ASCII letters and digits, the
  letters of Latin-1, and its superscript digits and fractions.
\<close>

definition isalnum :: "char \<Rightarrow> bool" where
  "isalnum c =
     in_class
       [(CHR ''0'', CHR ''9''), (CHR ''A'', CHR ''Z''), (CHR ''a'', CHR ''z''),
        (CHR 0xAA, CHR 0xAA), (CHR 0xB2, CHR 0xB3), (CHR 0xB5, CHR 0xB5),
        (CHR 0xB9, CHR 0xBA), (CHR 0xBC, CHR 0xBE), (CHR 0xC0, CHR 0xD6),
        (CHR 0xD8, CHR 0xF6), (CHR 0xF8, CHR 0xFF)] c"

text \<open>
  \<open>storage_client.bucket(bucket_name)\<close> builds the bucket handle and sends nothing. It
  checks the name first: the first and the last character are read, which raises
  \<open>IndexError\<close> on the empty name, and both must be letters or digits, or
  \<open>ValueError\<close> is raised.
\<close>

definition storage_client_bucket :: "string \<Rightarrow> storage_error + string" where
  "storage_client_bucket bucket_name =
     (case bucket_name of
        [] \<Rightarrow> Inl IndexError
      | c # cs \<Rightarrow>
          if isalnum c \<and> isalnum (last bucket_name) then Inr bucket_name
          else Inl ValueError)"

text \<open>
  The function from its first statement. The bucket handle is built before the name
  is looked at, and an exception of \<open>bucket()\<close> ends the run there, with nothing
  printed and nothing sent. \<open>storage.Client()\<close> reads the credentials of the process
  and \<open>blob()\<close> accepts every name; both are taken to return.
\<close>

definition invocation :: "faults \<Rightarrow> event \<Rightarrow> 'c object_store \<Rightarrow> 'c outcome" where
  "invocation flt cloud_event st =
     (case storage_client_bucket (bucket cloud_event) of
        Inl e \<Rightarrow> \<lparr>raised = Some e, effects = [], store = st\<rparr>
      | Inr bucket_handle \<Rightarrow> validate_naming_convention flt cloud_event st)"

subsection \<open>The exclusion rule as the spec words it\<close>


text \<open>
  The spec words the compliance check as a test of the whole name: eight digits, an
  underscore, the project code, an underscore, the deliverable name, \<open>_LoD\<close>, three
  digits, a dot and the extension, with nothing before or after. This predicate follows
  those words and is used only to compare them with \<open>sop_match\<close>.
\<close>

definition spec_compliant :: "string \<Rightarrow> bool" where
  "spec_compliant s =
     (\<exists>date code deliv lod ext.
        s = date @ ''_'' @ code @ ''_'' @ deliv @ ''_LoD'' @ lod @ ''.'' @ ext \<and>
        length date = 8 \<and> (\<forall>c\<in>set date. in_class digit c) \<and>
        code \<noteq> [] \<and> (\<forall>c\<in>set code. in_class upper_digit c) \<and>
        deliv \<noteq> [] \<and> (\<forall>c\<in>set deliv. in_class alnum c) \<and>
        length lod = 3 \<and> (\<forall>c\<in>set lod. in_class digit c) \<and>
        ext \<noteq> [] \<and> (\<forall>c\<in>set ext. in_class lower_digit c))"

section \<open>Properties of the model\<close>

subsection \<open>String tests\<close>




subsection \<open>Matching one item\<close>

text \<open>
  Each kind of item splits the input: a literal takes one character, a repetition takes
  a block of the class's characters, and the rest of the pattern goes on behind it.
\<close>

lemma re_match_Lit: "re_match (Lit c # p) a s \<longleftrightarrow> (\<exists>v. s = c # v \<and> re_match p False v)"
  by (cases s) auto

lemma re_match_Rep:
  "re_match (Rep cls n # p) a s \<longleftrightarrow>
     (\<exists>u v. s = u @ v \<and> length u = n \<and> (\<forall>c\<in>set u. in_class cls c) \<and>
            re_match p (if n = 0 then a else False) v)"
proof (induction n arbitrary: a s)
  case 0
  then show ?case by simp
next
  case (Suc n)
  show ?case
  proof (cases s)
    case Nil
    then show ?thesis by simp
  next
    case (Cons x xs)
    show ?thesis
    proof
      assume "re_match (Rep cls (Suc n) # p) a s"
      with Cons have x: "in_class cls x" and r: "re_match (Rep cls n # p) False xs" by auto
      from r obtain u v where uv: "xs = u @ v" "length u = n" "\<forall>c\<in>set u. in_class cls c"
        "re_match p False v" using Suc.IH[of False xs] by auto
      have "s = (x # u) @ v" using Cons uv by simp
      moreover have "length (x # u) = Suc n" using uv by simp
      moreover have "\<forall>c\<in>set (x # u). in_class cls c" using x uv by simp
      ultimately show "\<exists>u v. s = u @ v \<and> length u = Suc n \<and> (\<forall>c\<in>set u. in_class cls c) \<and>
            re_match p (if Suc n = 0 then a else False) v" using uv(4) by (metis nat.distinct(1))
    next
      assume "\<exists>u v. s = u @ v \<and> length u = Suc n \<and> (\<forall>c\<in>set u. in_class cls c) \<and>
            re_match p (if Suc n = 0 then a else False) v"
      then obtain u v where uv: "s = u @ v" "length u = Suc n" "\<forall>c\<in>set u. in_class cls c"
        "re_match p False v" by auto
      then obtain u' where u': "u = x # u'" using Cons by (cases u) auto
      then have "xs = u' @ v" "length u' = n" "\<forall>c\<in>set u'. in_class cls c" "in_class cls x"
        using uv Cons by auto
      then have "re_match (Rep cls n # p) False xs" using Suc.IH[of False xs] uv(4) by auto
      then show "re_match (Rep cls (Suc n) # p) a s" using Cons \<open>in_class cls x\<close> by simp
    qed
  qed
qed

lemma re_match_Rep_numeral:
  "re_match (Rep cls (numeral k) # p) a s \<longleftrightarrow>
     (\<exists>u v. s = u @ v \<and> length u = numeral k \<and> (\<forall>c\<in>set u. in_class cls c) \<and>
            re_match p False v)"
  by (simp add: re_match_Rep)

lemma re_match_Plus:
  "re_match (Plus cls # p) a s \<longleftrightarrow>
     (\<exists>u v. s = u @ v \<and> u \<noteq> [] \<and> (\<forall>c\<in>set u. in_class cls c) \<and> re_match p False v)"
proof (induction s arbitrary: a)
  case Nil
  then show ?case by simp
next
  case (Cons x xs)
  show ?case
  proof
    assume "re_match (Plus cls # p) a (x # xs)"
    then have x: "in_class cls x"
      and r: "re_match (Plus cls # p) False xs \<or> re_match p False xs" by auto
    from r show "\<exists>u v. x # xs = u @ v \<and> u \<noteq> [] \<and> (\<forall>c\<in>set u. in_class cls c) \<and> re_match p False v"
    proof
      assume "re_match (Plus cls # p) False xs"
      then obtain u v where uv: "xs = u @ v" "\<forall>c\<in>set u. in_class cls c" "re_match p False v"
        using Cons.IH[of False] by auto
      have "x # xs = (x # u) @ v" "x # u \<noteq> []" "\<forall>c\<in>set (x # u). in_class cls c"
        using uv x by auto
      then show ?thesis using uv(3) by blast
    next
      assume "re_match p False xs"
      moreover have "x # xs = [x] @ xs" "[x] \<noteq> []" "\<forall>c\<in>set [x]. in_class cls c" using x by auto
      ultimately show ?thesis by blast
    qed
  next
    assume "\<exists>u v. x # xs = u @ v \<and> u \<noteq> [] \<and> (\<forall>c\<in>set u. in_class cls c) \<and> re_match p False v"
    then obtain u v where uv: "x # xs = u @ v" "u \<noteq> []" "\<forall>c\<in>set u. in_class cls c"
      "re_match p False v" by blast
    then obtain u' where u': "u = x # u'" by (cases u) auto
    then have x: "in_class cls x" and xs: "xs = u' @ v" and all: "\<forall>c\<in>set u'. in_class cls c"
      using uv by auto
    show "re_match (Plus cls # p) a (x # xs)"
    proof (cases u')
      case Nil
      then show ?thesis using x xs uv(4) by simp
    next
      case (Cons y ys)
      then have "re_match (Plus cls # p) False xs" using Cons.IH[of False] xs all uv(4) by blast
      then show ?thesis using x by simp
    qed
  qed
qed

lemma re_match_Eol: "re_match [Eol] a s \<longleftrightarrow> s = [] \<or> s = [CHR 0x0A]"
  by simp

subsection \<open>The pattern, read from its end\<close>

text \<open>
  The items of \<open>SOP_PATTERN\<close> are unfolded one at a time, from the extension back to the
  date; \<open>t\<close> is what \<open>$\<close> lets follow the extension.
\<close>

lemma tail_ext:
  "re_match [Plus lower_digit, Eol] a v \<longleftrightarrow>
     (\<exists>ext t. v = ext @ t \<and>
        ext \<noteq> [] \<and> (\<forall>c\<in>set ext. in_class lower_digit c) \<and> (t = [] \<or> t = [CHR 0x0A]))"
  unfolding re_match_Plus re_match_Eol by blast

lemma tail_dot:
  "re_match [Lit (CHR ''.''), Plus lower_digit, Eol] a v \<longleftrightarrow>
     (\<exists>ext t. v = CHR ''.'' # ext @ t \<and>
        ext \<noteq> [] \<and> (\<forall>c\<in>set ext. in_class lower_digit c) \<and> (t = [] \<or> t = [CHR 0x0A]))"
  by (subst re_match_Lit, unfold tail_ext, blast)

lemma tail_lod:
  "re_match [Rep digit 3, Lit (CHR ''.''), Plus lower_digit, Eol] a v \<longleftrightarrow>
     (\<exists>lod ext t. v = lod @ CHR ''.'' # ext @ t \<and>
        length lod = 3 \<and> (\<forall>c\<in>set lod. in_class digit c) \<and>
        ext \<noteq> [] \<and> (\<forall>c\<in>set ext. in_class lower_digit c) \<and> (t = [] \<or> t = [CHR 0x0A]))"
  by (subst re_match_Rep_numeral, unfold tail_dot, blast)

lemma tail_D:
  "re_match [Lit (CHR ''D''), Rep digit 3, Lit (CHR ''.''), Plus lower_digit, Eol] a v \<longleftrightarrow>
     (\<exists>lod ext t. v = CHR ''D'' # lod @ CHR ''.'' # ext @ t \<and>
        length lod = 3 \<and> (\<forall>c\<in>set lod. in_class digit c) \<and>
        ext \<noteq> [] \<and> (\<forall>c\<in>set ext. in_class lower_digit c) \<and> (t = [] \<or> t = [CHR 0x0A]))"
  by (subst re_match_Lit, unfold tail_lod, blast)

lemma tail_oD:
  "re_match [Lit (CHR ''o''), Lit (CHR ''D''), Rep digit 3, Lit (CHR ''.''), Plus lower_digit, Eol] a v \<longleftrightarrow>
     (\<exists>lod ext t. v = CHR ''o'' # CHR ''D'' # lod @ CHR ''.'' # ext @ t \<and>
        length lod = 3 \<and> (\<forall>c\<in>set lod. in_class digit c) \<and>
        ext \<noteq> [] \<and> (\<forall>c\<in>set ext. in_class lower_digit c) \<and> (t = [] \<or> t = [CHR 0x0A]))"
  by (subst re_match_Lit, unfold tail_D, blast)

lemma tail_LoD:
  "re_match [Lit (CHR ''L''), Lit (CHR ''o''), Lit (CHR ''D''), Rep digit 3, Lit (CHR ''.''), Plus lower_digit, Eol] a v \<longleftrightarrow>
     (\<exists>lod ext t. v = CHR ''L'' # CHR ''o'' # CHR ''D'' # lod @ CHR ''.'' # ext @ t \<and>
        length lod = 3 \<and> (\<forall>c\<in>set lod. in_class digit c) \<and>
        ext \<noteq> [] \<and> (\<forall>c\<in>set ext. in_class lower_digit c) \<and> (t = [] \<or> t = [CHR 0x0A]))"
  by (subst re_match_Lit, unfold tail_oD, blast)

lemma tail_us3:
  "re_match [Lit (CHR ''_''), Lit (CHR ''L''), Lit (CHR ''o''), Lit (CHR ''D''), Rep digit 3, Lit (CHR ''.''), Plus lower_digit, Eol] a v \<longleftrightarrow>
     (\<exists>lod ext t. v = CHR ''_'' # CHR ''L'' # CHR ''o'' # CHR ''D'' # lod @ CHR ''.'' # ext @ t \<and>
        length lod = 3 \<and> (\<forall>c\<in>set lod. in_class digit c) \<and>
        ext \<noteq> [] \<and> (\<forall>c\<in>set ext. in_class lower_digit c) \<and> (t = [] \<or> t = [CHR 0x0A]))"
  by (subst re_match_Lit, unfold tail_LoD, blast)

lemma tail_deliv:
  "re_match [Plus alnum, Lit (CHR ''_''), Lit (CHR ''L''), Lit (CHR ''o''), Lit (CHR ''D''), Rep digit 3, Lit (CHR ''.''), Plus lower_digit, Eol] a v \<longleftrightarrow>
     (\<exists>deliv lod ext t. v = deliv @ CHR ''_'' # CHR ''L'' # CHR ''o'' # CHR ''D'' # lod @ CHR ''.'' # ext @ t \<and>
        deliv \<noteq> [] \<and> (\<forall>c\<in>set deliv. in_class alnum c) \<and>
        length lod = 3 \<and> (\<forall>c\<in>set lod. in_class digit c) \<and>
        ext \<noteq> [] \<and> (\<forall>c\<in>set ext. in_class lower_digit c) \<and> (t = [] \<or> t = [CHR 0x0A]))"
  by (subst re_match_Plus, unfold tail_us3, blast)

lemma tail_us2:
  "re_match [Lit (CHR ''_''), Plus alnum, Lit (CHR ''_''), Lit (CHR ''L''), Lit (CHR ''o''), Lit (CHR ''D''), Rep digit 3, Lit (CHR ''.''), Plus lower_digit, Eol] a v \<longleftrightarrow>
     (\<exists>deliv lod ext t. v = CHR ''_'' # deliv @ CHR ''_'' # CHR ''L'' # CHR ''o'' # CHR ''D'' # lod @ CHR ''.'' # ext @ t \<and>
        deliv \<noteq> [] \<and> (\<forall>c\<in>set deliv. in_class alnum c) \<and>
        length lod = 3 \<and> (\<forall>c\<in>set lod. in_class digit c) \<and>
        ext \<noteq> [] \<and> (\<forall>c\<in>set ext. in_class lower_digit c) \<and> (t = [] \<or> t = [CHR 0x0A]))"
  by (subst re_match_Lit, unfold tail_deliv, blast)

lemma tail_code:
  "re_match [Plus upper_digit, Lit (CHR ''_''), Plus alnum, Lit (CHR ''_''), Lit (CHR ''L''), Lit (CHR ''o''), Lit (CHR ''D''), Rep digit 3, Lit (CHR ''.''), Plus lower_digit, Eol] a v \<longleftrightarrow>
     (\<exists>code deliv lod ext t. v = code @ CHR ''_'' # deliv @ CHR ''_'' # CHR ''L'' # CHR ''o'' # CHR ''D'' # lod @ CHR ''.'' # ext @ t \<and>
        code \<noteq> [] \<and> (\<forall>c\<in>set code. in_class upper_digit c) \<and>
        deliv \<noteq> [] \<and> (\<forall>c\<in>set deliv. in_class alnum c) \<and>
        length lod = 3 \<and> (\<forall>c\<in>set lod. in_class digit c) \<and>
        ext \<noteq> [] \<and> (\<forall>c\<in>set ext. in_class lower_digit c) \<and> (t = [] \<or> t = [CHR 0x0A]))"
  by (subst re_match_Plus, unfold tail_us2, blast)

lemma tail_us1:
  "re_match [Lit (CHR ''_''), Plus upper_digit, Lit (CHR ''_''), Plus alnum, Lit (CHR ''_''), Lit (CHR ''L''), Lit (CHR ''o''), Lit (CHR ''D''), Rep digit 3, Lit (CHR ''.''), Plus lower_digit, Eol] a v \<longleftrightarrow>
     (\<exists>code deliv lod ext t. v = CHR ''_'' # code @ CHR ''_'' # deliv @ CHR ''_'' # CHR ''L'' # CHR ''o'' # CHR ''D'' # lod @ CHR ''.'' # ext @ t \<and>
        code \<noteq> [] \<and> (\<forall>c\<in>set code. in_class upper_digit c) \<and>
        deliv \<noteq> [] \<and> (\<forall>c\<in>set deliv. in_class alnum c) \<and>
        length lod = 3 \<and> (\<forall>c\<in>set lod. in_class digit c) \<and>
        ext \<noteq> [] \<and> (\<forall>c\<in>set ext. in_class lower_digit c) \<and> (t = [] \<or> t = [CHR 0x0A]))"
  by (subst re_match_Lit, unfold tail_code, blast)

lemma tail_date:
  "re_match [Rep digit 8, Lit (CHR ''_''), Plus upper_digit, Lit (CHR ''_''), Plus alnum, Lit (CHR ''_''), Lit (CHR ''L''), Lit (CHR ''o''), Lit (CHR ''D''), Rep digit 3, Lit (CHR ''.''), Plus lower_digit, Eol] a v \<longleftrightarrow>
     (\<exists>date code deliv lod ext t. v = date @ CHR ''_'' # code @ CHR ''_'' # deliv @ CHR ''_'' # CHR ''L'' # CHR ''o'' # CHR ''D'' # lod @ CHR ''.'' # ext @ t \<and>
        length date = 8 \<and> (\<forall>c\<in>set date. in_class digit c) \<and>
        code \<noteq> [] \<and> (\<forall>c\<in>set code. in_class upper_digit c) \<and>
        deliv \<noteq> [] \<and> (\<forall>c\<in>set deliv. in_class alnum c) \<and>
        length lod = 3 \<and> (\<forall>c\<in>set lod. in_class digit c) \<and>
        ext \<noteq> [] \<and> (\<forall>c\<in>set ext. in_class lower_digit c) \<and> (t = [] \<or> t = [CHR 0x0A]))"
  by (subst re_match_Rep_numeral, unfold tail_us1, blast)

lemma sop_match_unfold:
  "sop_match s \<longleftrightarrow>
     (\<exists>date code deliv lod ext t.
        s = date @ ''_'' @ code @ ''_'' @ deliv @ ''_LoD'' @ lod @ ''.'' @ ext @ t \<and>
        length date = 8 \<and> (\<forall>c\<in>set date. in_class digit c) \<and>
        code \<noteq> [] \<and> (\<forall>c\<in>set code. in_class upper_digit c) \<and>
        deliv \<noteq> [] \<and> (\<forall>c\<in>set deliv. in_class alnum c) \<and>
        length lod = 3 \<and> (\<forall>c\<in>set lod. in_class digit c) \<and>
        ext \<noteq> [] \<and> (\<forall>c\<in>set ext. in_class lower_digit c) \<and> (t = [] \<or> t = [CHR 0x0A]))"
  unfolding sop_match_def SOP_PATTERN_def re_match.simps(2) tail_date by simp

subsection \<open>Names that match\<close>











subsection \<open>The pattern and the wording of the spec\<close>

text \<open>
  \<open>re.match\<close> accepts the names of the form the spec describes, and each of them
  followed by one line feed, and nothing else.
\<close>

lemma spec_compliant_last:
  assumes "spec_compliant s"
  shows "s \<noteq> [] \<and> in_class lower_digit (last s)"
proof -
  from assms obtain r ext where "s = r @ ext" "ext \<noteq> []" "\<forall>c\<in>set ext. in_class lower_digit c"
    unfolding spec_compliant_def
    by (metis append.assoc)
  then show ?thesis by simp
qed

lemma sop_match_iff_spec:
  "sop_match s \<longleftrightarrow> spec_compliant s \<or> (\<exists>r. s = r @ [CHR 0x0A] \<and> spec_compliant r)"
proof
  assume "sop_match s"
  then obtain date code deliv lod ext t where
    s: "s = date @ ''_'' @ code @ ''_'' @ deliv @ ''_LoD'' @ lod @ ''.'' @ ext @ t"
    and c: "length date = 8" "\<forall>c\<in>set date. in_class digit c"
      "code \<noteq> []" "\<forall>c\<in>set code. in_class upper_digit c"
      "deliv \<noteq> []" "\<forall>c\<in>set deliv. in_class alnum c"
      "length lod = 3" "\<forall>c\<in>set lod. in_class digit c"
      "ext \<noteq> []" "\<forall>c\<in>set ext. in_class lower_digit c"
    and t: "t = [] \<or> t = [CHR 0x0A]"
    unfolding sop_match_unfold by blast
  let ?r = "date @ ''_'' @ code @ ''_'' @ deliv @ ''_LoD'' @ lod @ ''.'' @ ext"
  have r: "spec_compliant ?r" unfolding spec_compliant_def using c by blast
  from t show "spec_compliant s \<or> (\<exists>r. s = r @ [CHR 0x0A] \<and> spec_compliant r)"
  proof
    assume "t = []"
    then have "s = ?r" using s by simp
    then show ?thesis using r by simp
  next
    assume "t = [CHR 0x0A]"
    then have "s = ?r @ [CHR 0x0A]" using s by simp
    then show ?thesis using r by blast
  qed
next
  assume "spec_compliant s \<or> (\<exists>r. s = r @ [CHR 0x0A] \<and> spec_compliant r)"
  then obtain r t where st: "s = r @ t" "spec_compliant r" "t = [] \<or> t = [CHR 0x0A]"
    by auto
  from st(2) obtain date code deliv lod ext where
    r: "r = date @ ''_'' @ code @ ''_'' @ deliv @ ''_LoD'' @ lod @ ''.'' @ ext"
    and c: "length date = 8" "\<forall>c\<in>set date. in_class digit c"
      "code \<noteq> []" "\<forall>c\<in>set code. in_class upper_digit c"
      "deliv \<noteq> []" "\<forall>c\<in>set deliv. in_class alnum c"
      "length lod = 3" "\<forall>c\<in>set lod. in_class digit c"
      "ext \<noteq> []" "\<forall>c\<in>set ext. in_class lower_digit c"
    unfolding spec_compliant_def by blast
  have "s = date @ ''_'' @ code @ ''_'' @ deliv @ ''_LoD'' @ lod @ ''.'' @ ext @ t"
    using st(1) r by simp
  then show "sop_match s" unfolding sop_match_unfold using c st(3) by blast
qed

lemma line_feed_not_lower_digit: "\<not> in_class lower_digit (CHR 0x0A)"
  by code_simp

lemma line_feed_not_spec_compliant: "\<not> spec_compliant (s @ [CHR 0x0A])"
  using spec_compliant_last[of "s @ [CHR 0x0A]"] line_feed_not_lower_digit by auto

lemma sop_match_line_feed:
  assumes "spec_compliant s"
  shows "sop_match (s @ [CHR 0x0A])" and "\<not> spec_compliant (s @ [CHR 0x0A])"
  using assms line_feed_not_spec_compliant by (auto simp: sop_match_iff_spec)

lemma sop_match_without_line_feed:
  assumes "CHR 0x0A \<notin> set s"
  shows "sop_match s \<longleftrightarrow> spec_compliant s"
  using assms by (auto simp: sop_match_iff_spec)

subsection \<open>The two requests\<close>

lemma copy_blob_Inr:
  "copy_blob fault st sb sn db dn = Inr st1 \<longleftrightarrow>
     sn \<noteq> [] \<and> dn \<noteq> [] \<and> fault = None \<and>
     (\<exists>content. st (sb, sn) = Some content \<and> st1 = st((db, dn) \<mapsto> content))"
  by (auto simp: copy_blob_def split: option.splits)

lemma blob_delete_Inr:
  "blob_delete fault st b n = Inr st2 \<longleftrightarrow>
     n \<noteq> [] \<and> fault = None \<and> st (b, n) \<noteq> None \<and> st2 = st((b, n) := None)"
  by (auto simp: blob_delete_def split: option.splits)

lemma quarantine_key_differs: "(b, ''quarantine/'' @ n) \<noteq> (b, n)"
proof
  assume "(b, ''quarantine/'' @ n) = (b, n)"
  then have "length (''quarantine/'' @ n) = length n" by simp
  then show False by simp
qed

subsection \<open>The branches of the validator\<close>

lemma quarantine_branch:
  assumes "\<not> py_in ''quarantine/'' n" and "\<not> startswith n ''.''" and "\<not> sop_match n"
  shows "validate_naming_convention flt \<lparr>bucket = b, name = n\<rparr> st =
    (case copy_blob (copy_fault flt) st b n b (''quarantine/'' @ n) of
       Inl e \<Rightarrow>
         \<lparr>raised = Some e,
          effects = [Print (SOP_Violation n), Copy_blob b n b (''quarantine/'' @ n)],
          store = st\<rparr>
     | Inr st1 \<Rightarrow>
         (case blob_delete (delete_fault flt) st1 b n of
            Inl e \<Rightarrow>
              \<lparr>raised = Some e,
               effects = [Print (SOP_Violation n), Copy_blob b n b (''quarantine/'' @ n),
                          Delete_blob b n],
               store = st1\<rparr>
          | Inr st2 \<Rightarrow>
              \<lparr>raised = None,
               effects = [Print (SOP_Violation n), Copy_blob b n b (''quarantine/'' @ n),
                          Delete_blob b n],
               store = st2\<rparr>))"
  using assms by (simp add: validate_naming_convention_def Let_def split: sum.splits)






lemma invocation_accepted:
  assumes "storage_client_bucket b = Inr h"
  shows "invocation flt \<lparr>bucket = b, name = n\<rparr> st =
    validate_naming_convention flt \<lparr>bucket = b, name = n\<rparr> st"
  using assms by (simp add: invocation_def)



section \<open>The claims\<close>

subsection \<open>C1: a name that fails the pattern is moved to quarantine\<close>




subsection \<open>C2: excluded names are skipped\<close>




subsection \<open>C3: a compliant name is left alone\<close>



subsection \<open>C4: the match is not anchored at the end of the name\<close>

text \<open>
  Claim C4 says that a name is compliant exactly when the whole name has the form of
  the pattern, with no character before or after. The source anchors the pattern with
  \<open>$\<close> and tests it with \<open>re.match\<close>, and \<open>$\<close> also holds just before a final line
  feed. The name \<open>20240115_PRJ1_Scan_LoD200.las\<close> followed by a line feed ends in a
  character that is no lowercase letter and no digit; it is matched all the same, and
  the validator prints the compliance line for it and moves nothing.
\<close>

theorem trailing_line_feed_matches:
  "sop_match (''20240115_PRJ1_Scan_LoD200.las'' @ [CHR 0x0A]) \<and>
   last (''20240115_PRJ1_Scan_LoD200.las'' @ [CHR 0x0A]) = CHR 0x0A \<and>
   \<not> in_class lower_digit (CHR 0x0A) \<and>
   effects (validate_naming_convention no_faults
     \<lparr>bucket = ''scans'', name = ''20240115_PRJ1_Scan_LoD200.las'' @ [CHR 0x0A]\<rparr>
     [(''scans'', ''20240115_PRJ1_Scan_LoD200.las'' @ [CHR 0x0A]) \<mapsto> ''points''])
   = [Print (SOP_Compliant (''20240115_PRJ1_Scan_LoD200.las'' @ [CHR 0x0A]))]"
  by code_simp

subsection \<open>C5: a successful quarantine moves the object\<close>

text \<open>
  Claim C5. After a quarantine action in which the copy and the delete both succeed (the
  name is not excluded, fails the pattern, and no exception leaves the run), no object
  exists at the original key, and the content the original key held before the run is
  at the key \<open>quarantine/\<close> + name of the same bucket.
\<close>

theorem quarantine_moves_object:
  assumes "\<not> py_in ''quarantine/'' n" and "\<not> startswith n ''.''" and "\<not> sop_match n"
    and "raised (validate_naming_convention flt \<lparr>bucket = b, name = n\<rparr> st) = None"
  shows "\<exists>content. st (b, n) = Some content \<and>
     store (validate_naming_convention flt \<lparr>bucket = b, name = n\<rparr> st) (b, n) = None \<and>
     store (validate_naming_convention flt \<lparr>bucket = b, name = n\<rparr> st)
       (b, ''quarantine/'' @ n) = Some content"
proof -
  let ?out = "validate_naming_convention flt \<lparr>bucket = b, name = n\<rparr> st"
  from assms(4) obtain st1 st2 where
    c: "copy_blob (copy_fault flt) st b n b (''quarantine/'' @ n) = Inr st1"
    and d: "blob_delete (delete_fault flt) st1 b n = Inr st2"
    and out: "store ?out = st2"
    unfolding quarantine_branch[OF assms(1-3)] by (auto split: sum.splits)
  from c obtain content where src: "st (b, n) = Some content"
    and st1: "st1 = st((b, ''quarantine/'' @ n) \<mapsto> content)"
    unfolding copy_blob_Inr by blast
  from d have st2: "st2 = st1((b, n) := None)" unfolding blob_delete_Inr by blast
  have "st2 (b, n) = None" using st2 by simp
  moreover have "st2 (b, ''quarantine/'' @ n) = Some content"
    using st1 st2 quarantine_key_differs[of b n] by simp
  ultimately show ?thesis using src out by simp
qed

text \<open>The theorem at \<open>scan_final.las\<close>, in a bucket that holds the object.\<close>

theorem quarantine_moves_object_witness:
  "\<not> py_in ''quarantine/'' ''scan_final.las'' \<and>
   \<not> startswith ''scan_final.las'' ''.'' \<and>
   \<not> sop_match ''scan_final.las'' \<and>
   raised (validate_naming_convention no_faults
     \<lparr>bucket = ''scans'', name = ''scan_final.las''\<rparr>
     [(''scans'', ''scan_final.las'') \<mapsto> ''points'']) = None \<and>
   store (validate_naming_convention no_faults
     \<lparr>bucket = ''scans'', name = ''scan_final.las''\<rparr>
     [(''scans'', ''scan_final.las'') \<mapsto> ''points'']) (''scans'', ''scan_final.las'') = None \<and>
   store (validate_naming_convention no_faults
     \<lparr>bucket = ''scans'', name = ''scan_final.las''\<rparr>
     [(''scans'', ''scan_final.las'') \<mapsto> ''points''])
     (''scans'', ''quarantine/'' @ ''scan_final.las'') = Some ''points''"
proof -
  have h1: "\<not> py_in ''quarantine/'' ''scan_final.las''" by code_simp
  have h2: "\<not> startswith ''scan_final.las'' ''.''" by code_simp
  have h3: "\<not> sop_match ''scan_final.las''" by code_simp
  have h4: "raised (validate_naming_convention no_faults
     \<lparr>bucket = ''scans'', name = ''scan_final.las''\<rparr>
     [(''scans'', ''scan_final.las'') \<mapsto> ''points'']) = None" by code_simp
  show ?thesis
    using h1 h2 h3 h4 quarantine_moves_object[OF h1 h2 h3 h4] by simp
qed

subsection \<open>C6: storage failures leave the function\<close>



subsection \<open>C7: a lowercase project code\<close>



subsection \<open>C8: a name with a path separator\<close>



subsection \<open>C9: the empty name\<close>

text \<open>
  Claim C9, as amended. For the empty name, in a bucket whose name the client accepts,
  the validator does not reject or skip the event: the empty string does not contain
  \<open>quarantine/\<close>, does not start with a dot and fails the pattern, so the run enters
  the quarantine branch, prints the violation line and calls \<open>copy_blob\<close> from the
  empty key to the bare key \<open>quarantine/\<close>. The client refuses the empty blob name
  with \<open>ValueError\<close> before a request is sent; that error leaves the run, the store
  is as it was, and no delete of the empty key is attempted.
\<close>

theorem empty_name_copy_refused:
  assumes "storage_client_bucket b = Inr h"
  shows "\<not> py_in ''quarantine/'' [] \<and> \<not> startswith [] ''.'' \<and> \<not> sop_match [] \<and>
    invocation flt \<lparr>bucket = b, name = []\<rparr> st =
      \<lparr>raised = Some ValueError,
       effects = [Print (SOP_Violation []), Copy_blob b [] b ''quarantine/''],
       store = st\<rparr>"
proof -
  have h1: "\<not> py_in ''quarantine/'' []" by code_simp
  have h2: "\<not> startswith [] ''.''" by code_simp
  have h3: "\<not> sop_match []" by code_simp
  have c: "copy_blob (copy_fault flt) st b [] b (''quarantine/'' @ []) = Inl ValueError"
    by (simp add: copy_blob_def)
  have "validate_naming_convention flt \<lparr>bucket = b, name = []\<rparr> st =
      \<lparr>raised = Some ValueError,
       effects = [Print (SOP_Violation []), Copy_blob b [] b (''quarantine/'' @ [])],
       store = st\<rparr>"
    by (simp only: quarantine_branch[OF h1 h2 h3] c sum.case)
  then have "invocation flt \<lparr>bucket = b, name = []\<rparr> st =
      \<lparr>raised = Some ValueError,
       effects = [Print (SOP_Violation []), Copy_blob b [] b ''quarantine/''],
       store = st\<rparr>"
    by (simp add: invocation_accepted[OF assms])
  then show ?thesis using h1 h2 h3 by (intro conjI)
qed

text \<open>The theorem in the bucket \<open>scans\<close>, with a service that would answer.\<close>

theorem empty_name_copy_refused_witness:
  "storage_client_bucket ''scans'' = Inr ''scans'' \<and>
   invocation no_faults \<lparr>bucket = ''scans'', name = []\<rparr>
     [(''scans'', ''a.las'') \<mapsto> ''points''] =
   \<lparr>raised = Some ValueError,
    effects = [Print (SOP_Violation []), Copy_blob ''scans'' [] ''scans'' ''quarantine/''],
    store = [(''scans'', ''a.las'') \<mapsto> ''points'']\<rparr>"
proof -
  have h: "storage_client_bucket ''scans'' = Inr ''scans''" by code_simp
  show ?thesis
    using h empty_name_copy_refused[OF h, of no_faults
      "[(''scans'', ''a.las'') \<mapsto> ''points'']"]
    by simp
qed

text \<open>
  The claim as stated has the run attempt a delete of the empty key. In the bucket
  \<open>scans\<close>, with a service that answers every request, the run on the empty name
  ends in the \<open>ValueError\<close> of \<open>copy_blob\<close>, and no delete is among its calls.
\<close>

theorem empty_name_copy_refused_counterexample:
  "raised (invocation no_faults \<lparr>bucket = ''scans'', name = []\<rparr>
     [(''scans'', ''a.las'') \<mapsto> ''points'']) = Some ValueError \<and>
   effects (invocation no_faults \<lparr>bucket = ''scans'', name = []\<rparr>
     [(''scans'', ''a.las'') \<mapsto> ''points''])
   = [Print (SOP_Violation []), Copy_blob ''scans'' [] ''scans'' ''quarantine/''] \<and>
   Delete_blob ''scans'' [] \<notin>
     set (effects (invocation no_faults \<lparr>bucket = ''scans'', name = []\<rparr>
       [(''scans'', ''a.las'') \<mapsto> ''points'']))"
  by code_simp

subsection \<open>C10: the branch depends on the name, once the bucket is accepted\<close>




end
